theory Spec2Isabelle
  imports Complex_Main "HOL-Library.Word"
begin

section \<open>JavaScript strings\<close>

text \<open>
  A JavaScript string is a sequence of UTF-16 code units. \<open>length\<close>, \<open>indexOf\<close>,
  \<open>slice\<close>, \<open>split\<close>, \<open>trim\<close> and \<open>startsWith\<close> work on code units, while
  \<open>for (const ch of s)\<close> walks the string by code points: a high surrogate followed
  by a low surrogate is one \<open>ch\<close> of length two, every other code unit is a \<open>ch\<close> of
  length one.
\<close>

type_synonym jsstring = "16 word list"

text \<open>An ASCII literal of the source as a code-unit sequence.\<close>

definition js :: "string \<Rightarrow> jsstring" where
  "js s = map of_char s"

fun code_points :: "jsstring \<Rightarrow> jsstring list" where
  "code_points [] = []"
| "code_points [c] = [[c]]"
| "code_points (c # d # s) =
     (if 0xD800 \<le> c \<and> c \<le> 0xDBFF \<and> 0xDC00 \<le> d \<and> d \<le> 0xDFFF
      then [c, d] # code_points s
      else [c] # code_points (d # s))"

text \<open>
  \<open>trim\<close> strips the code units that ECMAScript calls white space or line terminators
  from both ends; all of them lie in the basic plane.
\<close>

definition is_white_space :: "16 word \<Rightarrow> bool" where
  "is_white_space c =
     (c \<in> {0x0009, 0x000A, 0x000B, 0x000C, 0x000D, 0x0020, 0x00A0, 0x1680, 0x2028, 0x2029,
            0x202F, 0x205F, 0x3000, 0xFEFF} \<or> (0x2000 \<le> c \<and> c \<le> 0x200A))"

definition trim :: "jsstring \<Rightarrow> jsstring" where
  "trim s = rev (dropWhile is_white_space (rev (dropWhile is_white_space s)))"

text \<open>\<open>text.split("\n")\<close>: the pieces between line feeds, at least one piece.\<close>

fun split_newline :: "jsstring \<Rightarrow> jsstring list" where
  "split_newline [] = [[]]"
| "split_newline (c # s) =
     (if c = 0x000A then [] # split_newline s
      else (case split_newline s of [] \<Rightarrow> [[c]] | l # ls \<Rightarrow> (c # l) # ls))"

definition startsWith :: "jsstring \<Rightarrow> jsstring \<Rightarrow> bool" where
  "startsWith s p = (take (length p) s = p)"

text \<open>\<open>indexOf\<close> of a single code unit: the first position, or \<open>-1\<close>.\<close>

fun indexOf :: "jsstring \<Rightarrow> 16 word \<Rightarrow> int" where
  "indexOf [] c = - 1"
| "indexOf (d # s) c =
     (if d = c then 0 else (let r = indexOf s c in if r = - 1 then - 1 else r + 1))"

text \<open>
  \<open>s.slice(start, fin)\<close>: negative indices count from the end, both are clamped to the
  string; \<open>s.slice(start)\<close> is \<open>slice_str s start (length s)\<close>.
\<close>

definition slice_str :: "jsstring \<Rightarrow> int \<Rightarrow> int \<Rightarrow> jsstring" where
  "slice_str s start fin =
     (let len = int (length s);
          from = (if start < 0 then max (len + start) 0 else min start len);
          to = (if fin < 0 then max (len + fin) 0 else min fin len)
      in take (nat (to - from)) (drop (nat from) s))"

section \<open>Rule table parser\<close>

text \<open>
  \<open>rules\<close> is a \<open>Map\<close> from strings to strings. \<open>parseRules\<close> throws
  \<open>new Error(message)\<close> at two places; the source has no other error class. The
  messages quote the offending line, or left-hand side, between double quotes
  (code unit \<open>0x22\<close>).
\<close>

type_synonym rule_table = "jsstring \<rightharpoonup> jsstring"

datatype error = Error jsstring

definition bad_rule_line :: "jsstring \<Rightarrow> error" where
  "bad_rule_line line =
     Error (js ''Bad rule line (expected X=...): '' @ [0x0022] @ line @ [0x0022])"

definition bad_rule_lhs :: "jsstring \<Rightarrow> error" where
  "bad_rule_lhs lhs =
     Error (js ''Rule LHS must be single character: '' @ [0x0022] @ lhs @ [0x0022])"

text \<open>The loop \<open>for (const line of lines)\<close> with the table built so far.\<close>

fun parse_loop :: "jsstring list \<Rightarrow> rule_table \<Rightarrow> error + rule_table" where
  "parse_loop [] rules = Inr rules"
| "parse_loop (line # lines) rules =
     (if startsWith line (js ''#'') then parse_loop lines rules
      else
        let eq = indexOf line 0x003D in
        if eq = - 1 then Inl (bad_rule_line line)
        else
          let lhs = trim (slice_str line 0 eq);
              rhs = trim (slice_str line (eq + 1) (int (length line)))
          in if length lhs \<noteq> 1 then Inl (bad_rule_lhs lhs)
             else parse_loop lines (rules(lhs \<mapsto> rhs)))"

definition parseRules :: "jsstring \<Rightarrow> error + rule_table" where
  "parseRules text =
     parse_loop (filter (\<lambda>s. s \<noteq> []) (map trim (split_newline text))) Map.empty"

section \<open>Grammar expander\<close>

text \<open>
  \<open>rules.get(ch) ?? ch\<close> is the stored replacement, or \<open>ch\<close> itself when the key is
  absent.
\<close>

definition replacement :: "rule_table \<Rightarrow> jsstring \<Rightarrow> jsstring" where
  "replacement rules ch = (case rules ch of Some r \<Rightarrow> r | None \<Rightarrow> ch)"

text \<open>The inner loop \<open>for (const ch of s) out += (rules.get(ch) ?? ch)\<close>.\<close>

fun rewrite_loop :: "rule_table \<Rightarrow> jsstring list \<Rightarrow> jsstring \<Rightarrow> jsstring" where
  "rewrite_loop rules [] out = out"
| "rewrite_loop rules (ch # chs) out = rewrite_loop rules chs (out @ replacement rules ch)"

text \<open>The outer loop \<open>for (let i = 0; i < iterations; i++)\<close>, with \<open>s\<close> as its state.\<close>

function expand_loop :: "rule_table \<Rightarrow> int \<Rightarrow> int \<Rightarrow> jsstring \<Rightarrow> jsstring" where
  "expand_loop rules iterations i s =
     (if i < iterations
      then expand_loop rules iterations (i + 1) (rewrite_loop rules (code_points s) [])
      else s)"
  by pat_completeness auto
termination
  by (relation "measure (\<lambda>(rules, iterations, i, s). nat (iterations - i))") auto

definition expand :: "jsstring \<Rightarrow> rule_table \<Rightarrow> int \<Rightarrow> jsstring" where
  "expand axiom rules iterations = expand_loop rules iterations 0 axiom"

section \<open>Turtle interpreter\<close>

text \<open>
  The interpreter computes with JavaScript numbers. Their arithmetic is a parameter of
  the model: a record of the operations and constants that \<open>interpret\<close> uses, so every
  property below holds for whatever these operations compute, the rounded operations
  of double precision included. \<open>real_arith\<close> is the instance of exact real arithmetic.
\<close>

record 'a arith =
  num :: "int \<Rightarrow> 'a"
  PI :: 'a
  fneg :: "'a \<Rightarrow> 'a"
  fadd :: "'a \<Rightarrow> 'a \<Rightarrow> 'a"
  fsub :: "'a \<Rightarrow> 'a \<Rightarrow> 'a"
  fmul :: "'a \<Rightarrow> 'a \<Rightarrow> 'a"
  fdiv :: "'a \<Rightarrow> 'a \<Rightarrow> 'a"
  fcos :: "'a \<Rightarrow> 'a"
  fsin :: "'a \<Rightarrow> 'a"

definition real_arith :: "real arith" where
  "real_arith = \<lparr>num = of_int, PI = pi, fneg = uminus, fadd = (+), fsub = (-),
     fmul = (*), fdiv = (/), fcos = cos, fsin = sin\<rparr>"

record 'a segment =
  x1 :: 'a
  y1 :: 'a
  x2 :: 'a
  y2 :: 'a

text \<open>
  The locals \<open>x\<close>, \<open>y\<close>, \<open>theta\<close> form the record that \<open>stack.push({ x, y, theta })\<close>
  copies; \<open>push\<close> appends to the array and \<open>pop\<close> removes its last element.
\<close>

record 'a state =
  x :: 'a
  y :: 'a
  theta :: 'a

record 'a turtle =
  cur :: "'a state"
  stack :: "'a state list"
  segments :: "'a segment list"

text \<open>The \<open>options\<close> object; a missing field takes the default of the destructuring.\<close>

record 'a options =
  step :: "'a option"
  angleDeg :: "'a option"

definition step_of :: "'a arith \<Rightarrow> 'a options \<Rightarrow> 'a" where
  "step_of A opts = (case step opts of None \<Rightarrow> num A 10 | Some v \<Rightarrow> v)"

definition angleRad_of :: "'a arith \<Rightarrow> 'a options \<Rightarrow> 'a" where
  "angleRad_of A opts =
     fdiv A (fmul A (case angleDeg opts of None \<Rightarrow> num A 25 | Some v \<Rightarrow> v) (PI A))
       (num A 180)"

definition initial :: "'a arith \<Rightarrow> 'a turtle" where
  "initial A =
     \<lparr>cur = \<lparr>x = num A 0, y = num A 0, theta = fdiv A (fneg A (PI A)) (num A 2)\<rparr>,
      stack = [], segments = []\<rparr>"

text \<open>The body of \<open>for (const ch of lsys)\<close>; \<open>stack.pop()\<close> of an empty array is
  \<open>undefined\<close>, and \<open>if (state)\<close> then skips the restore.\<close>

definition interpret_body :: "'a arith \<Rightarrow> 'a \<Rightarrow> 'a \<Rightarrow> jsstring \<Rightarrow> 'a turtle \<Rightarrow> 'a turtle" where
  "interpret_body A stp angleRad ch t =
     (if ch = js ''A'' \<or> ch = js ''B'' \<or> ch = js ''F'' then
        let nx = fadd A (x (cur t)) (fmul A stp (fcos A (theta (cur t))));
            ny = fadd A (y (cur t)) (fmul A stp (fsin A (theta (cur t))))
        in t\<lparr>segments := segments t @ [\<lparr>x1 = x (cur t), y1 = y (cur t), x2 = nx, y2 = ny\<rparr>],
             cur := (cur t)\<lparr>x := nx, y := ny\<rparr>\<rparr>
      else if ch = js ''+'' then t\<lparr>cur := (cur t)\<lparr>theta := fadd A (theta (cur t)) angleRad\<rparr>\<rparr>
      else if ch = js ''-'' then t\<lparr>cur := (cur t)\<lparr>theta := fsub A (theta (cur t)) angleRad\<rparr>\<rparr>
      else if ch = js ''['' then t\<lparr>stack := stack t @ [cur t]\<rparr>
      else if ch = js '']'' then
        (case stack t of
           [] \<Rightarrow> t
         | _ # _ \<Rightarrow> t\<lparr>stack := butlast (stack t), cur := last (stack t)\<rparr>)
      else t)"

fun interpret_loop :: "'a arith \<Rightarrow> 'a \<Rightarrow> 'a \<Rightarrow> jsstring list \<Rightarrow> 'a turtle \<Rightarrow> 'a turtle" where
  "interpret_loop A stp angleRad [] t = t"
| "interpret_loop A stp angleRad (ch # chs) t =
     interpret_loop A stp angleRad chs (interpret_body A stp angleRad ch t)"

text \<open>The locals of \<open>interpret\<close> once the loop has consumed the symbols \<open>chs\<close>.\<close>

definition turtle_after :: "'a arith \<Rightarrow> 'a options \<Rightarrow> jsstring list \<Rightarrow> 'a turtle" where
  "turtle_after A opts chs =
     interpret_loop A (step_of A opts) (angleRad_of A opts) chs (initial A)"

text \<open>The function \<open>interpret\<close> of the source (the name is reserved in theory text).\<close>

definition interpret_turtle :: "'a arith \<Rightarrow> jsstring \<Rightarrow> 'a options \<Rightarrow> 'a segment list" where
  "interpret_turtle A lsys opts = segments (turtle_after A opts (code_points lsys))"

section \<open>Batch animation scheduler\<close>

text \<open>
  The scheduler works on three pieces of shared state: the handle objects
  \<open>{ cancelled }\<close> (a heap of flags, a handle being its index), the global variable
  \<open>currentAnim\<close> (a handle or \<open>null\<close>), and the drawing context, kept as the sequence
  of calls made on it. Every call of \<open>drawSegmentsAnimated\<close> creates one closure
  \<open>frame\<close> over \<open>segments\<close>, \<open>batch\<close>, \<open>delayMs\<close> and the cursor \<open>i\<close>;
  \<open>anim_pending\<close> says that the closure has been handed to \<open>requestAnimationFrame\<close>
  (directly or through \<open>setTimeout\<close>) and has not run yet, and \<open>anim_handle\<close> records
  which handle the call created. The closure itself holds no handle: \<open>frame\<close> reads
  the global \<open>currentAnim\<close>.
\<close>

datatype 'a canvas_op =
  ClearRect | FillStyle | FillRect | Save | StrokeStyle | LineWidth | Translate
| BeginPath | MoveTo 'a 'a | LineTo 'a 'a | Stroke | Restore

record anim_options =
  batch :: "int option"
  delayMs :: "int option"

record 'a frame_closure =
  anim_segments :: "'a segment list"
  anim_batch :: int
  anim_delayMs :: int
  anim_i :: nat
  anim_pending :: bool
  anim_handle :: nat

record 'a world =
  handles :: "bool list"
  currentAnim :: "nat option"
  closures :: "'a frame_closure list"
  canvas :: "'a canvas_op list"

definition initial_world :: "'a world" where
  "initial_world = \<lparr>handles = [], currentAnim = None, closures = [], canvas = []\<rparr>"

text \<open>The loop \<open>for (let k = 0; k < batch && i < segments.length; k++, i++)\<close>.\<close>

function batch_loop ::
  "'a segment list \<Rightarrow> int \<Rightarrow> int \<Rightarrow> nat \<Rightarrow> 'a canvas_op list \<Rightarrow> nat \<times> 'a canvas_op list" where
  "batch_loop segs b k i ops =
     (if k < b \<and> i < length segs
      then batch_loop segs b (k + 1) (Suc i)
             (ops @ [MoveTo (x1 (segs ! i)) (y1 (segs ! i)),
                     LineTo (x2 (segs ! i)) (y2 (segs ! i))])
      else (i, ops))"
  by pat_completeness auto
termination
  by (relation "measure (\<lambda>(segs, b, k, i, ops). length segs - i)") auto

text \<open>One run of the closure \<open>frame\<close> number \<open>n\<close>.\<close>

definition frame :: "nat \<Rightarrow> 'a world \<Rightarrow> 'a world" where
  "frame n w =
     (if (case currentAnim w of None \<Rightarrow> True | Some h \<Rightarrow> handles w ! h)
      then w\<lparr>canvas := canvas w @ [Restore]\<rparr>
      else
        let c = closures w ! n;
            (i', ops) = batch_loop (anim_segments c) (anim_batch c) 0 (anim_i c)
                          (canvas w @ [BeginPath]);
            drawn = ops @ [Stroke]
        in if i' < length (anim_segments c)
           then w\<lparr>closures := (closures w)[n := c\<lparr>anim_i := i', anim_pending := True\<rparr>],
                  canvas := drawn\<rparr>
           else w\<lparr>closures := (closures w)[n := c\<lparr>anim_i := i'\<rparr>],
                  canvas := drawn @ [Restore], currentAnim := None\<rparr>)"

text \<open>A tick: the environment runs the pending callback of closure \<open>n\<close>, once.\<close>

definition tick :: "nat \<Rightarrow> 'a world \<Rightarrow> 'a world" where
  "tick n w =
     (if n < length (closures w) \<and> anim_pending (closures w ! n)
      then frame n (w\<lparr>closures := (closures w)[n := (closures w ! n)\<lparr>anim_pending := False\<rparr>]\<rparr>)
      else w)"

text \<open>\<open>if (currentAnim) { currentAnim.cancelled = true; currentAnim = null; }\<close>\<close>

definition cancel_current :: "'a world \<Rightarrow> 'a world" where
  "cancel_current w =
     (case currentAnim w of
        None \<Rightarrow> w
      | Some h \<Rightarrow> w\<lparr>handles := (handles w)[h := True], currentAnim := None\<rparr>)"

definition drawSegmentsAnimated :: "'a segment list \<Rightarrow> anim_options \<Rightarrow> 'a world \<Rightarrow> 'a world" where
  "drawSegmentsAnimated segs options w =
     (let b = (case batch options of None \<Rightarrow> 2 | Some v \<Rightarrow> v);
          d = (case delayMs options of None \<Rightarrow> 0 | Some v \<Rightarrow> v);
          w1 = cancel_current w;
          h = length (handles w1);
          w2 = w1\<lparr>handles := handles w1 @ [False], currentAnim := Some h\<rparr>;
          w3 = w2\<lparr>canvas := canvas w2 @
                 [ClearRect, FillStyle, FillRect, Save, StrokeStyle, LineWidth, Translate]\<rparr>;
          n = length (closures w3);
          w4 = w3\<lparr>closures := closures w3 @
                 [\<lparr>anim_segments = segs, anim_batch = b, anim_delayMs = d, anim_i = 0,
                   anim_pending = False, anim_handle = h\<rparr>]\<rparr>
      in frame n w4)"

definition stopDrawingAnimation :: "'a world \<Rightarrow> 'a world" where
  "stopDrawingAnimation w = (cancel_current w)\<lparr>currentAnim := None\<rparr>"

section \<open>The specification's notions\<close>

text \<open>
  The symbols of a string are its characters, in order: a high surrogate followed by a
  low surrogate is one character, every other code unit is a character of its own.
\<close>

definition high_surrogate :: "16 word \<Rightarrow> bool" where
  "high_surrogate c = (0xD800 \<le> c \<and> c \<le> 0xDBFF)"

definition low_surrogate :: "16 word \<Rightarrow> bool" where
  "low_surrogate c = (0xDC00 \<le> c \<and> c \<le> 0xDFFF)"

fun symbols :: "jsstring \<Rightarrow> jsstring list" where
  "symbols (c # d # s) =
     (if high_surrogate c \<and> low_surrogate d then [c, d] # symbols s
      else [c] # symbols (d # s))"
| "symbols [c] = [[c]]"
| "symbols [] = []"

text \<open>
  One rewrite in the words of the specification: every symbol of the string is replaced
  by its rule-table mapping, or by itself when the table has no rule for it, and the
  replacements are concatenated in the order of the symbols.
\<close>

definition rule_or_self :: "rule_table \<Rightarrow> jsstring \<Rightarrow> jsstring" where
  "rule_or_self rules smb = (if rules smb = None then smb else the (rules smb))"

definition rewrite_once :: "rule_table \<Rightarrow> jsstring \<Rightarrow> jsstring" where
  "rewrite_once rules s = concat (map (rule_or_self rules) (symbols s))"

text \<open>
  The turtle of the specification. A symbol has one role: it draws, turns, saves,
  restores, or is inert. The turtle starts at \<open>(0, 0)\<close> heading \<open>-PI / 2\<close> with nothing
  saved, and reads the symbols from left to right. A drawing symbol emits the segment
  from the position to the position plus \<open>(step * cos heading, step * sin heading)\<close>
  and moves there; \<open>+\<close> adds the angle in radians, \<open>angleDeg * PI / 180\<close>, to the
  heading and \<open>-\<close> subtracts it; \<open>[\<close> saves position and heading, \<open>]\<close> restores the
  last saved ones and does nothing when none is saved; an inert symbol does nothing.
\<close>

datatype role = Draw | TurnPlus | TurnMinus | Save_state | Restore_state | Inert

definition role_of :: "jsstring \<Rightarrow> role" where
  "role_of smb =
     (if smb \<in> {js ''A'', js ''B'', js ''F''} then Draw
      else if smb = js ''+'' then TurnPlus
      else if smb = js ''-'' then TurnMinus
      else if smb = js ''['' then Save_state
      else if smb = js '']'' then Restore_state
      else Inert)"

definition radians :: "'a arith \<Rightarrow> 'a \<Rightarrow> 'a" where
  "radians A deg = fdiv A (fmul A deg (PI A)) (num A 180)"

definition start :: "'a arith \<Rightarrow> 'a state" where
  "start A = \<lparr>x = num A 0, y = num A 0, theta = fdiv A (fneg A (PI A)) (num A 2)\<rparr>"

definition forward :: "'a arith \<Rightarrow> 'a \<Rightarrow> 'a state \<Rightarrow> 'a state" where
  "forward A stp p =
     \<lparr>x = fadd A (x p) (fmul A stp (fcos A (theta p))),
      y = fadd A (y p) (fmul A stp (fsin A (theta p))),
      theta = theta p\<rparr>"

fun emitted :: "'a arith \<Rightarrow> 'a \<Rightarrow> 'a \<Rightarrow> jsstring list \<Rightarrow> 'a state \<Rightarrow> 'a state list \<Rightarrow> 'a segment list" where
  "emitted A stp ang [] p saved = []"
| "emitted A stp ang (smb # smbs) p saved =
     (case role_of smb of
        Draw \<Rightarrow>
          \<lparr>x1 = x p, y1 = y p, x2 = x (forward A stp p), y2 = y (forward A stp p)\<rparr> #
          emitted A stp ang smbs (forward A stp p) saved
      | TurnPlus \<Rightarrow> emitted A stp ang smbs (p\<lparr>theta := fadd A (theta p) ang\<rparr>) saved
      | TurnMinus \<Rightarrow> emitted A stp ang smbs (p\<lparr>theta := fsub A (theta p) ang\<rparr>) saved
      | Save_state \<Rightarrow> emitted A stp ang smbs p (p # saved)
      | Restore_state \<Rightarrow>
          (case saved of
             [] \<Rightarrow> emitted A stp ang smbs p []
           | q # rest \<Rightarrow> emitted A stp ang smbs q rest)
      | Inert \<Rightarrow> emitted A stp ang smbs p saved)"

definition turtle_segments :: "'a arith \<Rightarrow> 'a \<Rightarrow> 'a \<Rightarrow> jsstring \<Rightarrow> 'a segment list" where
  "turtle_segments A stp deg lsys = emitted A stp (radians A deg) (symbols lsys) (start A) []"

text \<open>
  The lines of a rule text that remain once every line is trimmed and the blank lines
  and the lines starting with \<open>#\<close> are ignored; the two sides of such a line around its
  first \<open>=\<close>, trimmed; and what makes a line, and a text, malformed.
\<close>

definition rule_lines :: "jsstring \<Rightarrow> jsstring list" where
  "rule_lines text =
     filter (\<lambda>l. l \<noteq> [] \<and> \<not> startsWith l (js ''#'')) (map trim (split_newline text))"

definition lhs_of :: "jsstring \<Rightarrow> jsstring" where
  "lhs_of line = trim (takeWhile (\<lambda>c. c \<noteq> 0x003D) line)"

definition rhs_of :: "jsstring \<Rightarrow> jsstring" where
  "rhs_of line = trim (drop 1 (dropWhile (\<lambda>c. c \<noteq> 0x003D) line))"

definition malformed_line :: "jsstring \<Rightarrow> bool" where
  "malformed_line line = (0x003D \<notin> set line \<or> length (lhs_of line) \<noteq> 1)"

definition malformed :: "jsstring \<Rightarrow> bool" where
  "malformed text = list_ex malformed_line (rule_lines text)"

text \<open>The table holding every rule of the lines, a later line overriding an earlier one.\<close>

definition table_of :: "jsstring list \<Rightarrow> rule_table" where
  "table_of lines = map_of (rev (map (\<lambda>l. (lhs_of l, rhs_of l)) lines))"

text \<open>Two rule texts: one with a comment, a blank line and padding, one with a repeated
  left-hand side.\<close>

definition algae :: jsstring where
  "algae = js ''A=AB'' @ [0x000A] @ js '' # comment'' @ [0x000A, 0x000A] @ js '' B = A ''"

definition twice :: jsstring where
  "twice = js ''A=AB'' @ [0x000A] @ js ''A=B'' @ [0x000A] @ js ''B=A''"

text \<open>
  What \<open>run("grow")\<close> does to the scheduler, twice in a row: \<open>stopDrawingAnimation()\<close>,
  then \<open>drawSegmentsAnimated(ctx, segments, { batch: 1, delayMs: 10 })\<close>. No tick runs
  between the two starts.
\<close>

definition grow_options :: anim_options where
  "grow_options = \<lparr>batch = Some 1, delayMs = Some 10\<rparr>"

definition two_starts :: "'a segment list \<Rightarrow> 'a segment list \<Rightarrow> 'a world" where
  "two_starts first second =
     drawSegmentsAnimated second grow_options (stopDrawingAnimation
       (drawSegmentsAnimated first grow_options (stopDrawingAnimation initial_world)))"

text \<open>The path commands that draw a sequence of segments.\<close>

definition path_of :: "'a segment list \<Rightarrow> 'a canvas_op list" where
  "path_of segs = concat (map (\<lambda>s. [MoveTo (x1 s) (y1 s), LineTo (x2 s) (y2 s)]) segs)"

section \<open>Properties of the expander\<close>

lemma concat_code_points: "concat (code_points s) = s"
  by (induction s rule: code_points.induct) simp_all

lemma code_points_symbols: "code_points s = symbols s"
  by (induction s rule: code_points.induct)
    (simp_all add: high_surrogate_def low_surrogate_def)

lemma replacement_rule_or_self: "replacement rules = rule_or_self rules"
  by (auto simp add: replacement_def rule_or_self_def fun_eq_iff)

lemma rewrite_loop_concat:
  "rewrite_loop rules chs out = out @ concat (map (replacement rules) chs)"
  by (induction chs arbitrary: out) simp_all

lemma rewrite_loop_once: "rewrite_loop rules (code_points s) [] = rewrite_once rules s"
  by (simp add: rewrite_loop_concat rewrite_once_def code_points_symbols
      replacement_rule_or_self)

lemma expand_loop_funpow:
  "i \<le> iterations \<Longrightarrow>
   expand_loop rules iterations i s = (rewrite_once rules ^^ nat (iterations - i)) s"
proof (induction rules iterations i s rule: expand_loop.induct)
  case (1 rules iterations i s)
  show ?case
  proof (cases "i < iterations")
    case True
    then have "nat (iterations - i) = Suc (nat (iterations - (i + 1)))"
      by simp
    with True "1.IH" show ?thesis
      by (simp add: rewrite_loop_once funpow_swap1 del: expand_loop.simps
          add: expand_loop.simps [of rules iterations i s])
  next
    case False
    with "1.prems" show ?thesis by simp
  qed
qed

lemma rewrite_loop_empty: "rewrite_loop Map.empty (code_points s) [] = s"
proof -
  have "map (replacement Map.empty) chs = chs" for chs :: "jsstring list"
    by (induction chs) (simp_all add: replacement_def)
  then show ?thesis
    by (simp add: rewrite_loop_concat concat_code_points)
qed

lemma expand_loop_empty: "expand_loop Map.empty iterations i s = s"
proof (induction "Map.empty :: rule_table" iterations i s rule: expand_loop.induct)
  case (1 iterations i s)
  then show ?case
    by (simp add: rewrite_loop_empty del: expand_loop.simps
        add: expand_loop.simps [of Map.empty iterations i s])
qed

text \<open>
  Claim C1. For a non-negative integer \<open>n\<close>, \<open>expand(axiom, rules, n)\<close> is the result
  of \<open>n\<close> successive rewrites of the axiom, one rewrite replacing every symbol by its
  rule-table mapping (or by itself when it has no rule) and concatenating the
  replacements in order; with \<open>n = 0\<close> the axiom is returned unchanged.
\<close>

theorem expand_is_iterated_rewrite:
  "expand axiom rules 0 = axiom \<and>
   (0 \<le> n \<longrightarrow> expand axiom rules n = (rewrite_once rules ^^ nat n) axiom)"
  using expand_loop_funpow [of 0 n rules axiom] by (simp add: expand_def)

text \<open>
  On \<open>F+F\<close> with the single rule \<open>F=FF\<close> the symbol \<open>+\<close> has no rule and stays. With
  a rule for a lone low surrogate, a surrogate pair is one symbol and stays whole.
\<close>

theorem expand_is_iterated_rewrite_witness:
  "expand (js ''F+F'') [js ''F'' \<mapsto> js ''FF''] 0 = js ''F+F'' \<and>
   (0::int) \<le> 2 \<and>
   expand (js ''F+F'') [js ''F'' \<mapsto> js ''FF''] 2 = js ''FFFF+FFFF'' \<and>
   (0::int) \<le> 1 \<and>
   expand (js ''F'' @ [0xD83D, 0xDE00]) [js ''F'' \<mapsto> js ''FF'', [0xDE00] \<mapsto> js ''X''] 1 =
     js ''FF'' @ [0xD83D, 0xDE00]"
proof -
  have two: "(f ^^ 2) s = f (f s)" for f :: "jsstring \<Rightarrow> jsstring" and s
    by (simp add: numeral_2_eq_2)
  have "expand (js ''F+F'') [js ''F'' \<mapsto> js ''FF''] 0 = js ''F+F'' \<and>
      expand (js ''F+F'') [js ''F'' \<mapsto> js ''FF''] 2 = js ''FFFF+FFFF''"
    using expand_is_iterated_rewrite [of "js ''F+F''" "[js ''F'' \<mapsto> js ''FF'']" 2]
    by (simp add: two js_def rewrite_once_def rule_or_self_def high_surrogate_def
        low_surrogate_def)
  moreover have "expand (js ''F'' @ [0xD83D, 0xDE00])
      [js ''F'' \<mapsto> js ''FF'', [0xDE00] \<mapsto> js ''X''] 1 = js ''FF'' @ [0xD83D, 0xDE00]"
    using expand_is_iterated_rewrite
      [of "js ''F'' @ [0xD83D, 0xDE00]" "[js ''F'' \<mapsto> js ''FF'', [0xDE00] \<mapsto> js ''X'']" 1]
    by (simp add: js_def rewrite_once_def rule_or_self_def high_surrogate_def
        low_surrogate_def)
  ultimately show ?thesis
    by simp
qed

text \<open>
  Claim C8. With an empty rule table the expander returns the axiom unchanged, for every
  axiom and every iteration count \<open>n\<close> (the non-negative ones in particular).
\<close>

theorem expand_empty_rules: "expand axiom Map.empty n = axiom"
  by (simp add: expand_def expand_loop_empty del: expand_loop.simps)

section \<open>Properties of the parser\<close>

lemma indexOf_ge: "- 1 \<le> indexOf s c"
  by (induction s) (auto simp add: Let_def)

lemma indexOf_absent: "indexOf s c = - 1 \<longleftrightarrow> c \<notin> set s"
proof (induction s)
  case Nil
  show ?case by simp
next
  case (Cons d s)
  with indexOf_ge [of s c] show ?case
    by (auto simp add: Let_def)
qed

lemma indexOf_takeWhile: "c \<in> set s \<Longrightarrow> nat (indexOf s c) = length (takeWhile (\<lambda>d. d \<noteq> c) s)"
proof (induction s)
  case Nil
  then show ?case by simp
next
  case (Cons d s)
  show ?case
  proof (cases "d = c")
    case True
    then show ?thesis by simp
  next
    case False
    with Cons.prems have "c \<in> set s" by simp
    then have "indexOf s c \<noteq> - 1" "nat (indexOf s c) = length (takeWhile (\<lambda>d. d \<noteq> c) s)"
      using Cons.IH by (simp_all add: indexOf_absent)
    moreover from this indexOf_ge [of s c] have "0 \<le> indexOf s c" by arith
    ultimately show ?thesis
      using False by (simp add: Let_def nat_add_distrib)
  qed
qed

lemma take_indexOf: "c \<in> set s \<Longrightarrow> take (nat (indexOf s c)) s = takeWhile (\<lambda>d. d \<noteq> c) s"
  using takeWhile_eq_take [of "\<lambda>d. d \<noteq> c" s] by (simp add: indexOf_takeWhile)

lemma drop_indexOf: "c \<in> set s \<Longrightarrow> drop (nat (indexOf s c)) s = dropWhile (\<lambda>d. d \<noteq> c) s"
  using dropWhile_eq_drop [of "\<lambda>d. d \<noteq> c" s] by (simp add: indexOf_takeWhile)

lemma indexOf_nonneg: "c \<in> set s \<Longrightarrow> 0 \<le> indexOf s c"
  using indexOf_ge [of s c] indexOf_absent [of s c] by arith

lemma slice_lhs:
  assumes "c \<in> set line"
  shows "slice_str line 0 (indexOf line c) = takeWhile (\<lambda>d. d \<noteq> c) line"
proof -
  have "length (takeWhile (\<lambda>d. d \<noteq> c) line) \<le> length line"
    by (rule length_takeWhile_le)
  with assms indexOf_takeWhile [OF assms] have "indexOf line c \<le> int (length line)"
    using indexOf_nonneg [OF assms] by linarith
  with assms indexOf_nonneg [OF assms] show ?thesis
    by (simp add: slice_str_def take_indexOf min_def)
qed

lemma slice_rhs:
  assumes "c \<in> set line"
  shows "slice_str line (indexOf line c + 1) (int (length line)) = drop 1 (dropWhile (\<lambda>d. d \<noteq> c) line)"
proof -
  let ?i = "indexOf line c"
  from assms have suc: "nat (?i + 1) = Suc (nat ?i)"
    using indexOf_nonneg [of c line] by simp
  then have "drop (nat (?i + 1)) line = drop 1 (drop (nat ?i) line)"
    by simp
  with assms have tail: "drop (nat (?i + 1)) line = drop 1 (dropWhile (\<lambda>d. d \<noteq> c) line)"
    by (simp add: drop_indexOf del: drop_drop)
  have "slice_str line (?i + 1) (int (length line)) = drop (nat (?i + 1)) line"
    using indexOf_nonneg [OF assms] by (simp add: slice_str_def Let_def min_def)
  with tail show ?thesis
    by simp
qed

lemma parse_loop_malformed:
  "isl (parse_loop lines rules) \<longleftrightarrow>
   list_ex malformed_line (filter (\<lambda>l. \<not> startsWith l (js ''#'')) lines)"
proof (induction lines arbitrary: rules)
  case Nil
  show ?case by simp
next
  case (Cons line lines)
  show ?case
  proof (cases "0x003D \<in> set line")
    case True
    then show ?thesis
      using Cons.IH
      by (simp add: Let_def indexOf_absent slice_lhs malformed_line_def lhs_of_def)
  next
    case False
    then show ?thesis
      using Cons.IH
      by (simp add: Let_def indexOf_absent malformed_line_def)
  qed
qed

lemma parse_loop_table:
  "\<not> list_ex malformed_line (filter (\<lambda>l. \<not> startsWith l (js ''#'')) lines) \<Longrightarrow>
   parse_loop lines rules =
     Inr (rules ++ table_of (filter (\<lambda>l. \<not> startsWith l (js ''#'')) lines))"
proof (induction lines arbitrary: rules)
  case Nil
  show ?case by (simp add: table_of_def)
next
  case (Cons line lines)
  show ?case
  proof (cases "startsWith line (js ''#'')")
    case True
    with Cons show ?thesis by simp
  next
    case False
    with Cons.prems have ok: "\<not> malformed_line line"
      and rest: "\<not> list_ex malformed_line (filter (\<lambda>l. \<not> startsWith l (js ''#'')) lines)"
      by simp_all
    from ok have eq: "0x003D \<in> set line" and one: "length (lhs_of line) = 1"
      by (simp_all add: malformed_line_def)
    have step: "rules(lhs_of line \<mapsto> rhs_of line) ++ table_of ls = rules ++ table_of (line # ls)"
      for ls
      by (simp add: table_of_def fun_eq_iff map_add_def split: option.split)
    have "parse_loop (line # lines) rules = parse_loop lines (rules(lhs_of line \<mapsto> rhs_of line))"
      using False eq one slice_lhs [OF eq] slice_rhs [OF eq]
      by (simp add: Let_def indexOf_absent lhs_of_def rhs_of_def)
    also have "\<dots> = Inr (rules(lhs_of line \<mapsto> rhs_of line) ++
        table_of (filter (\<lambda>l. \<not> startsWith l (js ''#'')) lines))"
      by (rule Cons.IH [OF rest])
    also have "\<dots> = Inr (rules ++ table_of (filter (\<lambda>l. \<not> startsWith l (js ''#'')) (line # lines)))"
      using False by (simp add: step del: map_add_upd_left)
    finally show ?thesis .
  qed
qed

lemma filter_rule_lines:
  "filter (\<lambda>l. \<not> startsWith l (js ''#'')) (filter (\<lambda>s. s \<noteq> []) (map trim (split_newline text))) =
   rule_lines text"
  by (simp add: rule_lines_def)

lemma rule_lines_algae: "rule_lines algae = [js ''A=AB'', js ''B = A'']"
  by (simp add: algae_def rule_lines_def js_def trim_def is_white_space_def startsWith_def)

lemma rule_lines_twice: "rule_lines twice = [js ''A=AB'', js ''A=B'', js ''B=A'']"
  by (simp add: twice_def rule_lines_def js_def trim_def is_white_space_def startsWith_def)

lemma lhs_rhs_examples:
  "lhs_of (js ''A=AB'') = js ''A''" "rhs_of (js ''A=AB'') = js ''AB''"
  "lhs_of (js ''B = A'') = js ''B''" "rhs_of (js ''B = A'') = js ''A''"
  "lhs_of (js ''A=B'') = js ''A''" "rhs_of (js ''A=B'') = js ''B''"
  "lhs_of (js ''B=A'') = js ''B''" "rhs_of (js ''B=A'') = js ''A''"
  by (simp_all add: lhs_of_def rhs_of_def js_def trim_def is_white_space_def)

text \<open>
  Claim C3. \<open>parseRules\<close> throws exactly when one of the lines that remain (after
  trimming, and ignoring blank lines and lines starting with \<open>#\<close>) has no \<open>=\<close> or has
  a left-hand side that is not exactly one code unit long. Otherwise it returns the
  table of all the remaining lines, whose keys are their left-hand sides. A throw
  returns no table at all: the result is the error alone.
\<close>

theorem parseRules_malformed:
  "((\<exists>e. parseRules text = Inl e) \<longleftrightarrow> malformed text) \<and>
   (\<not> malformed text \<longrightarrow>
      parseRules text = Inr (table_of (rule_lines text)) \<and>
      dom (table_of (rule_lines text)) = set (map lhs_of (rule_lines text)))"
proof -
  have "(\<exists>e. parseRules text = Inl e) \<longleftrightarrow> isl (parseRules text)"
    by (cases "parseRules text") simp_all
  moreover have "isl (parseRules text) \<longleftrightarrow> malformed text"
    unfolding parseRules_def malformed_def parse_loop_malformed filter_rule_lines ..
  moreover have "parseRules text = Inr (table_of (rule_lines text))" if "\<not> malformed text"
    using that parse_loop_table [of "filter (\<lambda>s. s \<noteq> []) (map trim (split_newline text))" Map.empty]
    unfolding parseRules_def malformed_def filter_rule_lines by simp
  moreover have "dom (table_of ls) = set (map lhs_of ls)" for ls
    by (simp add: table_of_def dom_map_of_conv_image_fst image_image)
  ultimately show ?thesis
    by simp
qed


theorem parseRules_malformed_witness:
  "\<not> malformed algae \<and> parseRules algae = Inr (table_of (rule_lines algae)) \<and>
   dom (table_of (rule_lines algae)) = {js ''A'', js ''B''}"
proof -
  have "\<not> malformed algae"
    by (simp add: malformed_def rule_lines_algae malformed_line_def lhs_rhs_examples)
      (simp add: js_def)
  with parseRules_malformed [of algae] show ?thesis
    by (simp add: rule_lines_algae lhs_rhs_examples)
qed

lemma table_of_last:
  assumes "\<forall>l \<in> set after. lhs_of l \<noteq> lhs_of line"
  shows "table_of (before @ line # after) (lhs_of line) = Some (rhs_of line)"
proof -
  from assms have "lhs_of line \<notin> fst ` set (rev (map (\<lambda>l. (lhs_of l, rhs_of l)) after))"
    by auto
  then have "map_of (rev (map (\<lambda>l. (lhs_of l, rhs_of l)) after)) (lhs_of line) = None"
    by (simp add: map_of_eq_None_iff)
  then show ?thesis
    by (simp add: table_of_def map_add_def)
qed

text \<open>
  Claim C9. When every remaining line is well formed, \<open>parseRules\<close> succeeds, and where
  several lines share a left-hand side the table maps it to the replacement of the last
  of them: for a line that no later line repeats the left-hand side of, the table holds
  that line's right-hand side, whatever the earlier lines say.
\<close>

theorem parseRules_last_wins:
  assumes "\<not> malformed text"
    and "rule_lines text = before @ line # after"
    and "\<forall>l \<in> set after. lhs_of l \<noteq> lhs_of line"
  shows "\<exists>rules. parseRules text = Inr rules \<and> rules (lhs_of line) = Some (rhs_of line)"
proof -
  from assms(1) have "parseRules text = Inr (table_of (rule_lines text))"
    using parse_loop_table [of "filter (\<lambda>s. s \<noteq> []) (map trim (split_newline text))" Map.empty]
    unfolding parseRules_def malformed_def filter_rule_lines by simp
  with assms(2) table_of_last [OF assms(3)] show ?thesis
    by simp
qed

theorem parseRules_last_wins_witness:
  "\<not> malformed twice \<and>
   rule_lines twice = [js ''A=AB''] @ js ''A=B'' # [js ''B=A''] \<and>
   lhs_of (js ''B=A'') \<noteq> lhs_of (js ''A=B'') \<and>
   (\<exists>rules. parseRules twice = Inr rules \<and> rules (js ''A'') = Some (js ''B''))"
proof -
  have ok: "\<not> malformed twice"
    by (simp add: malformed_def rule_lines_twice malformed_line_def lhs_rhs_examples)
      (simp add: js_def)
  have lines: "rule_lines twice = [js ''A=AB''] @ js ''A=B'' # [js ''B=A'']"
    by (simp add: rule_lines_twice)
  have other: "\<forall>l \<in> set [js ''B=A'']. lhs_of l \<noteq> lhs_of (js ''A=B'')"
    by (simp add: lhs_rhs_examples) (simp add: js_def)
  from parseRules_last_wins [OF ok lines other] ok lines other show ?thesis
    by (simp add: lhs_rhs_examples)
qed

section \<open>Properties of the interpreter\<close>

lemma interpret_loop_snoc:
  "interpret_loop A stp ang (chs @ [ch]) t =
   interpret_body A stp ang ch (interpret_loop A stp ang chs t)"
  by (induction chs arbitrary: t) simp_all

lemma turtle_after_snoc:
  "turtle_after A opts (chs @ [ch]) =
   interpret_body A (step_of A opts) (angleRad_of A opts) ch (turtle_after A opts chs)"
  by (simp add: turtle_after_def interpret_loop_snoc)


lemma code_points_draw_count:
  "length (filter (\<lambda>ch. ch = js ''A'' \<or> ch = js ''B'' \<or> ch = js ''F'') (code_points s)) =
   length (filter (\<lambda>c. c \<in> set (js ''ABF'')) s)"
  by (induction s rule: code_points.induct) (auto simp add: js_def)

lemma interpret_body_segments:
  "length (segments (interpret_body A stp ang ch t)) =
   length (segments t) + (if ch = js ''A'' \<or> ch = js ''B'' \<or> ch = js ''F'' then 1 else 0)"
  by (simp add: interpret_body_def Let_def split: list.split)

lemma interpret_loop_segments:
  "length (segments (interpret_loop A stp ang chs t)) =
   length (segments t) + length (filter (\<lambda>ch. ch = js ''A'' \<or> ch = js ''B'' \<or> ch = js ''F'') chs)"
  by (induction chs arbitrary: t) (simp_all add: interpret_body_segments)

lemma interpret_loop_emitted:
  "segments (interpret_loop A stp ang chs t) =
   segments t @ emitted A stp ang chs (cur t) (rev (stack t))"
proof (induction chs arbitrary: t)
  case Nil
  show ?case by simp
next
  case (Cons ch chs)
  show ?case
  proof (cases "role_of ch")
    case Draw
    then have "ch = js ''A'' \<or> ch = js ''B'' \<or> ch = js ''F''"
      by (simp add: role_of_def split: if_splits)
    moreover have moved: "p\<lparr>x := a, y := b\<rparr> = \<lparr>x = a, y = b, theta = theta p\<rparr>"
      for p :: "'a state" and a b
      by (cases p) simp
    ultimately show ?thesis
      using Draw by (simp add: Cons.IH interpret_body_def forward_def Let_def moved)
  next
    case TurnPlus
    then have "ch = js ''+''"
      by (simp add: role_of_def split: if_splits)
    with TurnPlus show ?thesis
      by (simp add: Cons.IH interpret_body_def js_def)
  next
    case TurnMinus
    then have "ch = js ''-''"
      by (simp add: role_of_def split: if_splits)
    with TurnMinus show ?thesis
      by (simp add: Cons.IH interpret_body_def js_def)
  next
    case Save_state
    then have "ch = js ''[''"
      by (simp add: role_of_def split: if_splits)
    with Save_state show ?thesis
      by (simp add: Cons.IH interpret_body_def js_def)
  next
    case Restore_state
    then have ch: "ch = js '']''"
      by (simp add: role_of_def split: if_splits)
    show ?thesis
    proof (cases "stack t" rule: rev_cases)
      case Nil
      with Restore_state ch show ?thesis
        by (simp add: Cons.IH interpret_body_def js_def)
    next
      case (snoc saved q)
      then have "stack t \<noteq> []"
        by simp
      with ch have "interpret_body A stp ang ch t =
          t\<lparr>stack := butlast (stack t), cur := last (stack t)\<rparr>"
        by (cases "stack t") (simp_all add: interpret_body_def js_def)
      with snoc Restore_state show ?thesis
        by (simp add: Cons.IH)
    qed
  next
    case Inert
    then have "interpret_body A stp ang ch t = t"
      by (simp add: role_of_def interpret_body_def split: if_splits)
    with Inert show ?thesis
      by (simp add: Cons.IH)
  qed
qed

text \<open>
  Claim C2. For every input string and configuration \<open>{step, angleDeg}\<close>,
  \<open>interpret\<close> returns the segments that the turtle of the specification emits: one
  left-to-right pass over the symbols of the string from position \<open>(0, 0)\<close>, heading
  \<open>-PI / 2\<close> and an empty stack, where a drawing symbol emits exactly one segment
  from the old position to the old position plus
  \<open>(step * cos heading, step * sin heading)\<close> and moves there with the heading
  unchanged, \<open>+\<close> adds \<open>angleDeg * PI / 180\<close> to the heading and \<open>-\<close> subtracts it with
  no change of position, and a symbol that is no drawing, turn or bracket symbol
  changes nothing and emits nothing. In particular, written out: \<open>+F\<close> and \<open>-F\<close>
  draw one segment from the origin along the turned heading, and \<open>XF\<close> draws the one
  segment of \<open>F\<close>.
\<close>

theorem interpret_single_pass:
  "interpret_turtle A lsys \<lparr>step = Some stp, angleDeg = Some deg\<rparr> =
     turtle_segments A stp deg lsys \<and>
   interpret_turtle A (js ''+F'') \<lparr>step = Some stp, angleDeg = Some deg\<rparr> =
     [\<lparr>x1 = num A 0, y1 = num A 0,
       x2 = fadd A (num A 0) (fmul A stp (fcos A
              (fadd A (fdiv A (fneg A (PI A)) (num A 2))
                 (fdiv A (fmul A deg (PI A)) (num A 180))))),
       y2 = fadd A (num A 0) (fmul A stp (fsin A
              (fadd A (fdiv A (fneg A (PI A)) (num A 2))
                 (fdiv A (fmul A deg (PI A)) (num A 180)))))\<rparr>] \<and>
   interpret_turtle A (js ''-F'') \<lparr>step = Some stp, angleDeg = Some deg\<rparr> =
     [\<lparr>x1 = num A 0, y1 = num A 0,
       x2 = fadd A (num A 0) (fmul A stp (fcos A
              (fsub A (fdiv A (fneg A (PI A)) (num A 2))
                 (fdiv A (fmul A deg (PI A)) (num A 180))))),
       y2 = fadd A (num A 0) (fmul A stp (fsin A
              (fsub A (fdiv A (fneg A (PI A)) (num A 2))
                 (fdiv A (fmul A deg (PI A)) (num A 180)))))\<rparr>] \<and>
   interpret_turtle A (js ''XF'') \<lparr>step = Some stp, angleDeg = Some deg\<rparr> =
     [\<lparr>x1 = num A 0, y1 = num A 0,
       x2 = fadd A (num A 0) (fmul A stp (fcos A (fdiv A (fneg A (PI A)) (num A 2)))),
       y2 = fadd A (num A 0) (fmul A stp (fsin A (fdiv A (fneg A (PI A)) (num A 2))))\<rparr>]"
proof -
  let ?opts = "\<lparr>step = Some stp, angleDeg = Some deg\<rparr>"
  have "interpret_turtle A lsys ?opts = turtle_segments A stp deg lsys"
    by (simp add: interpret_turtle_def turtle_after_def interpret_loop_emitted
        turtle_segments_def code_points_symbols)
      (simp add: initial_def start_def step_of_def angleRad_of_def radians_def)
  moreover have "interpret_turtle A (js ''+F'') ?opts = [\<lparr>x1 = num A 0, y1 = num A 0,
       x2 = fadd A (num A 0) (fmul A stp (fcos A
              (fadd A (fdiv A (fneg A (PI A)) (num A 2))
                 (fdiv A (fmul A deg (PI A)) (num A 180))))),
       y2 = fadd A (num A 0) (fmul A stp (fsin A
              (fadd A (fdiv A (fneg A (PI A)) (num A 2))
                 (fdiv A (fmul A deg (PI A)) (num A 180)))))\<rparr>]"
    by (simp add: interpret_turtle_def turtle_after_def js_def interpret_body_def Let_def
        initial_def step_of_def angleRad_of_def)
  moreover have "interpret_turtle A (js ''-F'') ?opts = [\<lparr>x1 = num A 0, y1 = num A 0,
       x2 = fadd A (num A 0) (fmul A stp (fcos A
              (fsub A (fdiv A (fneg A (PI A)) (num A 2))
                 (fdiv A (fmul A deg (PI A)) (num A 180))))),
       y2 = fadd A (num A 0) (fmul A stp (fsin A
              (fsub A (fdiv A (fneg A (PI A)) (num A 2))
                 (fdiv A (fmul A deg (PI A)) (num A 180)))))\<rparr>]"
    by (simp add: interpret_turtle_def turtle_after_def js_def interpret_body_def Let_def
        initial_def step_of_def angleRad_of_def)
  moreover have "interpret_turtle A (js ''XF'') ?opts = [\<lparr>x1 = num A 0, y1 = num A 0,
       x2 = fadd A (num A 0) (fmul A stp (fcos A (fdiv A (fneg A (PI A)) (num A 2)))),
       y2 = fadd A (num A 0) (fmul A stp (fsin A (fdiv A (fneg A (PI A)) (num A 2))))\<rparr>]"
    by (simp add: interpret_turtle_def turtle_after_def js_def interpret_body_def Let_def
        initial_def step_of_def angleRad_of_def)
  ultimately show ?thesis
    by (simp only: simp_thms)
qed

text \<open>
  Claim C4. An unbalanced \<open>]\<close> does not stop the interpreter (the pass is a total
  function, with no failing branch): when the stack is empty, consuming \<open>]\<close> leaves
  position, heading, stack and segments as they were. Interpreting \<open>]A\<close> emits exactly
  one segment, from the origin along the initial heading \<open>-PI / 2\<close>.
\<close>

theorem unbalanced_pop_noop:
  "(stack (turtle_after A opts chs) = [] \<longrightarrow> turtle_after A opts (chs @ [js '']'']) = turtle_after A opts chs) \<and>
   interpret_turtle A (js '']A'') opts =
     [\<lparr>x1 = num A 0, y1 = num A 0,
       x2 = fadd A (num A 0)
              (fmul A (step_of A opts) (fcos A (fdiv A (fneg A (PI A)) (num A 2)))),
       y2 = fadd A (num A 0)
              (fmul A (step_of A opts) (fsin A (fdiv A (fneg A (PI A)) (num A 2))))\<rparr>]"
  by (simp add: turtle_after_snoc interpret_body_def js_def)
    (simp add: interpret_turtle_def turtle_after_def initial_def interpret_body_def js_def Let_def)

theorem unbalanced_pop_noop_witness:
  "stack (turtle_after real_arith \<lparr>step = Some 1, angleDeg = Some 90\<rparr> []) = [] \<and>
   turtle_after real_arith \<lparr>step = Some 1, angleDeg = Some 90\<rparr> [js '']''] =
   turtle_after real_arith \<lparr>step = Some 1, angleDeg = Some 90\<rparr> []"
  using unbalanced_pop_noop [of real_arith "\<lparr>step = Some 1, angleDeg = Some 90\<rparr>" "[]"]
  by (simp add: turtle_after_def initial_def)

text \<open>
  Claim C7. Interpreting \<open>F[+F]F\<close> with step 1 and angle 90 emits exactly three
  segments, and the third starts exactly where the first ended. The heading after
  \<open>]\<close> is the heading saved at \<open>[\<close>, and the third segment is drawn along it; in
  exact arithmetic that heading differs from the one the branch ended with.
\<close>

theorem branch_restore:
  "(let opts = \<lparr>step = Some (num A 1), angleDeg = Some (num A 90)\<rparr>;
        segs = interpret_turtle A (js ''F[+F]F'') opts;
        saved = theta (cur (turtle_after A opts (code_points (js ''F[''))))
    in length segs = 3 \<and>
       x1 (segs ! 2) = x2 (segs ! 0) \<and> y1 (segs ! 2) = y2 (segs ! 0) \<and>
       theta (cur (turtle_after A opts (code_points (js ''F[+F]'')))) = saved \<and>
       x2 (segs ! 2) = fadd A (x1 (segs ! 2)) (fmul A (num A 1) (fcos A saved)) \<and>
       y2 (segs ! 2) = fadd A (y1 (segs ! 2)) (fmul A (num A 1) (fsin A saved))) \<and>
   (let opts = \<lparr>step = Some 1, angleDeg = Some 90\<rparr>
    in theta (cur (turtle_after real_arith opts (code_points (js ''F[+F]'')))) \<noteq>
       theta (cur (turtle_after real_arith opts (code_points (js ''F[+F'')))))"
  by (simp add: interpret_turtle_def turtle_after_def js_def interpret_body_def Let_def initial_def
      step_of_def)
    (simp add: real_arith_def angleRad_of_def)

text \<open>
  Claim C10. The drawing alphabet is exactly \<open>A\<close>, \<open>B\<close> and \<open>F\<close>: for every input
  string the number of emitted segments is the number of occurrences of these three
  characters in it, so no other character emits a segment.
\<close>

theorem segment_count:
  "length (interpret_turtle A lsys opts) = length (filter (\<lambda>c. c \<in> set (js ''ABF'')) lsys)"
  by (simp add: interpret_turtle_def turtle_after_def interpret_loop_segments initial_def
      code_points_draw_count)

section \<open>Properties of the scheduler\<close>

lemma path_of_snoc:
  "path_of (segs @ [s]) = path_of segs @ [MoveTo (x1 s) (y1 s), LineTo (x2 s) (y2 s)]"
  by (simp add: path_of_def)

text \<open>
  One batch: from cursor \<open>i\<close> the loop draws the next \<open>m\<close> segments in their order,
  \<open>m\<close> being the smaller of the batch size still open and the number of segments left,
  and moves the cursor by \<open>m\<close>.
\<close>

lemma batch_loop_draws:
  "batch_loop segs b k i ops =
     (i + min (nat (b - k)) (length segs - i),
      ops @ path_of (take (min (nat (b - k)) (length segs - i)) (drop i segs)))"
proof (induction segs b k i ops rule: batch_loop.induct)
  case (1 segs b k i ops)
  show ?case
  proof (cases "k < b \<and> i < length segs")
    case True
    let ?m = "min (nat (b - (k + 1))) (length segs - Suc i)"
    from True have m: "min (nat (b - k)) (length segs - i) = Suc ?m"
      by (simp add: min_def) linarith
    from True have "drop i segs = segs ! i # drop (Suc i) segs"
      by (simp add: Cons_nth_drop_Suc)
    then have "path_of (take (Suc ?m) (drop i segs)) =
        [MoveTo (x1 (segs ! i)) (y1 (segs ! i)), LineTo (x2 (segs ! i)) (y2 (segs ! i))] @
        path_of (take ?m (drop (Suc i) segs))"
      by (simp add: path_of_def)
    with True "1.IH" m show ?thesis
      by (simp del: batch_loop.simps add: batch_loop.simps [of segs b k i ops])
  next
    case False
    then have "min (nat (b - k)) (length segs - i) = 0"
      by (auto simp add: min_def)
    with False show ?thesis
      by (simp add: path_of_def)
  qed
qed

text \<open>
  A run of \<open>frame\<close> that finds \<open>currentAnim\<close> empty, or its flag set, restores the
  context and does nothing else: nothing is drawn and no tick is scheduled. So a tick
  that follows \<open>stopDrawingAnimation()\<close> draws nothing.
\<close>

lemma frame_stopped:
  "currentAnim w = None \<Longrightarrow> frame n w = w\<lparr>canvas := canvas w @ [Restore]\<rparr>"
  by (simp add: frame_def)

lemma tick_after_stop:
  "tick 0 (stopDrawingAnimation (drawSegmentsAnimated [s1, s2, s3] grow_options initial_world)) =
   (stopDrawingAnimation (drawSegmentsAnimated [s1, s2, s3] grow_options initial_world))
     \<lparr>closures :=
        [\<lparr>anim_segments = [s1, s2, s3], anim_batch = 1, anim_delayMs = 10, anim_i = 1,
          anim_pending = False, anim_handle = 0\<rparr>],
      canvas :=
        [ClearRect, FillStyle, FillRect, Save, StrokeStyle, LineWidth, Translate, BeginPath,
         MoveTo (x1 s1) (y1 s1), LineTo (x2 s1) (y2 s1), Stroke, Restore]\<rparr>"
  by (simp add: drawSegmentsAnimated_def stopDrawingAnimation_def cancel_current_def
      initial_world_def grow_options_def frame_def tick_def Let_def)

text \<open>
  A run of \<open>frame\<close> that finds a current handle with its flag unset draws one batch
  and, when segments remain, schedules the next tick. The handle it looks at is the
  global one, whichever closure runs.
\<close>

lemma frame_live:
  assumes "currentAnim w = Some h" and "\<not> handles w ! h" and "n < length (closures w)"
  shows "frame n w =
     (let c = closures w ! n;
          m = min (nat (anim_batch c)) (length (anim_segments c) - anim_i c);
          drawn = canvas w @ [BeginPath] @ path_of (take m (drop (anim_i c) (anim_segments c)))
                    @ [Stroke]
      in if anim_i c + m < length (anim_segments c)
         then w\<lparr>closures := (closures w)[n := c\<lparr>anim_i := anim_i c + m, anim_pending := True\<rparr>],
                canvas := drawn\<rparr>
         else w\<lparr>closures := (closures w)[n := c\<lparr>anim_i := anim_i c + m\<rparr>],
                canvas := drawn @ [Restore], currentAnim := None\<rparr>)"
  using assms by (simp add: frame_def batch_loop_draws Let_def del: batch_loop.simps)

lemma two_starts_world:
  "two_starts [s1, s2, s3] [t1, t2] =
     \<lparr>handles = [True, False], currentAnim = Some 1,
      closures =
        [\<lparr>anim_segments = [s1, s2, s3], anim_batch = 1, anim_delayMs = 10, anim_i = 1,
          anim_pending = True, anim_handle = 0\<rparr>,
         \<lparr>anim_segments = [t1, t2], anim_batch = 1, anim_delayMs = 10, anim_i = 1,
          anim_pending = True, anim_handle = 1\<rparr>],
      canvas =
        [ClearRect, FillStyle, FillRect, Save, StrokeStyle, LineWidth, Translate, BeginPath,
         MoveTo (x1 s1) (y1 s1), LineTo (x2 s1) (y2 s1), Stroke,
         ClearRect, FillStyle, FillRect, Save, StrokeStyle, LineWidth, Translate, BeginPath,
         MoveTo (x1 t1) (y1 t1), LineTo (x2 t1) (y2 t1), Stroke]\<rparr>"
  by (simp add: two_starts_def drawSegmentsAnimated_def stopDrawingAnimation_def
      cancel_current_def initial_world_def grow_options_def frame_def Let_def)

text \<open>
  Claim C5, evaluated on the code. Two animations are started one after the other, the
  first with three segments and the second with two, and then the pending tick of the
  first one runs. The second start has set the cancellation flag of the first handle
  and made the second handle the current one; the tick of the first animation still
  draws its second segment, because \<open>frame\<close> tests the current handle and not the one
  its own animation was given.
\<close>

theorem cancelled_animation_still_draws:
  "(let w = two_starts [s1, s2, s3] [t1, t2]; w' = tick 0 w
    in anim_handle (closures w ! 0) = 0 \<and> handles w ! 0 \<and>
       currentAnim w = Some 1 \<and> handles w ! 1 = False \<and>
       canvas w' = canvas w @
         [BeginPath, MoveTo (x1 s2) (y1 s2), LineTo (x2 s2) (y2 s2), Stroke])"
  by (simp add: two_starts_world tick_def frame_def Let_def)

text \<open>
  Claim C6, evaluated on the code. In the same run, the tick of the first animation is
  executed although the flag of its handle is set: it moves the cursor from 1 to 2 and
  schedules a further tick of that animation.
\<close>

theorem cancelled_animation_reschedules:
  "(let w = two_starts [s1, s2, s3] [t1, t2]; w' = tick 0 w
    in handles w' ! anim_handle (closures w' ! 0) \<and>
       anim_i (closures w ! 0) = 1 \<and> anim_i (closures w' ! 0) = 2 \<and>
       anim_pending (closures w' ! 0))"
  by (simp add: two_starts_world tick_def frame_def Let_def)

end
